theory Spec2Isabelle
  imports Main
begin

section \<open>Python strings and text files\<close>

text \<open>
  A Python \<open>str\<close> is modelled as a HOL \<open>string\<close>; a character stands for the code point
  of the same number, so the model covers text whose code points are below 256. Text with
  other code points is outside the model.
\<close>

datatype py_error =
    FileNotFoundError
  | PermissionError
  | IndexError
  | ValueError string

text \<open>What \<open>open(path, 'r')\<close> finds at a path.\<close>

datatype file_entry = Missing | Unreadable | Contents string

text \<open>\<open>str.isspace\<close> on one character (code points 9-13, 28-32, 133 and 160).\<close>

definition isspace :: "char \<Rightarrow> bool" where
  "isspace c \<longleftrightarrow> c \<in> {CHR 0x09, CHR 0x0A, CHR 0x0B, CHR 0x0C, CHR 0x0D,
                        CHR 0x1C, CHR 0x1D, CHR 0x1E, CHR 0x1F, CHR 0x20, CHR 0x85, CHR 0xA0}"

text \<open>\<open>str.strip()\<close>: leading and trailing whitespace removed.\<close>

definition strip :: "string \<Rightarrow> string" where
  "strip s = rev (dropWhile isspace (rev (dropWhile isspace s)))"

text \<open>
  \<open>str.split(sep)\<close> for a separator of one character: the string is cut at every
  occurrence, so adjacent separators give empty pieces and the result is never empty.
\<close>

fun split :: "char \<Rightarrow> string \<Rightarrow> string list" where
  "split sep [] = [[]]"
| "split sep (c # cs) =
     (if c = sep then [] # split sep cs
      else (case split sep cs of [] \<Rightarrow> [[c]] | l # ls \<Rightarrow> (c # l) # ls))"

text \<open>\<open>str.lower()\<close>: A-Z and the capital letters of the range 192-222 (215 apart) move up by 32.\<close>

definition lower_char :: "char \<Rightarrow> char" where
  "lower_char c =
     (let n = (of_char c :: nat)
      in if (65 \<le> n \<and> n \<le> 90) \<or> (192 \<le> n \<and> n \<le> 214) \<or> (216 \<le> n \<and> n \<le> 222)
         then char_of (n + 32) else c)"

definition lower :: "string \<Rightarrow> string" where
  "lower s = map lower_char s"

text \<open>\<open>str.endswith(suffix)\<close>.\<close>

definition endswith :: "string \<Rightarrow> string \<Rightarrow> bool" where
  "endswith s suf \<longleftrightarrow> length suf \<le> length s \<and> drop (length s - length suf) s = suf"

text \<open>List indexing \<open>xs[i]\<close> with a non-negative index: out of range raises \<open>IndexError\<close>.\<close>

definition index :: "'a list \<Rightarrow> nat \<Rightarrow> py_error + 'a" where
  "index xs i = (if i < length xs then Inr (xs ! i) else Inl IndexError)"

text \<open>
  A file opened in text mode translates the line endings \<open>\r\n\<close> and \<open>\r\<close> to \<open>\n\<close>
  (universal newlines).
\<close>

fun translate_newlines :: "string \<Rightarrow> string" where
  "translate_newlines [] = []"
| "translate_newlines [c] = (if c = CHR 0x0D then [CHR 0x0A] else [c])"
| "translate_newlines (c # d # cs) =
     (if c = CHR 0x0D then
        (if d = CHR 0x0A then CHR 0x0A # translate_newlines cs
         else CHR 0x0A # translate_newlines (d # cs))
      else c # translate_newlines (d # cs))"

text \<open>
  \<open>f.readlines()\<close>: the text cut after every \<open>\n\<close>, each line keeping its \<open>\n\<close>; a last
  line without \<open>\n\<close> is a line too, and the empty text has no line.
\<close>

fun readlines :: "string \<Rightarrow> string list" where
  "readlines [] = []"
| "readlines (c # cs) =
     (if c = CHR 0x0A then [c] # readlines cs
      else (case readlines cs of [] \<Rightarrow> [[c]] | l # ls \<Rightarrow> (c # l) # ls))"

section \<open>The metadata parser\<close>

text \<open>The value of one metadata line: \<open>line.split(' ')[1]\<close>.\<close>

definition second_token :: "string \<Rightarrow> py_error + string" where
  "second_token line = index (split CHR '' '' line) 1"

text \<open>
  \<open>parse_meta(path)\<close>: every line of the file is stripped, then lines 0, 1 and 2 give
  width, height and pixel format. A raise is the \<open>Inl\<close> branch.
\<close>

definition parse_lines :: "string list \<Rightarrow> py_error + (string \<times> string \<times> string)" where
  "parse_lines lines =
     (case index lines 0 of Inl e \<Rightarrow> Inl e | Inr l0 \<Rightarrow>
      case second_token l0 of Inl e \<Rightarrow> Inl e | Inr img_width \<Rightarrow>
      case index lines 1 of Inl e \<Rightarrow> Inl e | Inr l1 \<Rightarrow>
      case second_token l1 of Inl e \<Rightarrow> Inl e | Inr img_height \<Rightarrow>
      case index lines 2 of Inl e \<Rightarrow> Inl e | Inr l2 \<Rightarrow>
      case second_token l2 of Inl e \<Rightarrow> Inl e | Inr img_pixel_format \<Rightarrow>
      Inr (img_width, img_height, img_pixel_format))"

definition stripped_lines :: "string \<Rightarrow> string list" where
  "stripped_lines text = map strip (readlines (translate_newlines text))"

definition parse_meta :: "(string \<Rightarrow> file_entry) \<Rightarrow> string \<Rightarrow> py_error + (string \<times> string \<times> string)" where
  "parse_meta fs path =
     (case fs path of
        Missing \<Rightarrow> Inl FileNotFoundError
      | Unreadable \<Rightarrow> Inl PermissionError
      | Contents text \<Rightarrow> parse_lines (stripped_lines text))"

section \<open>The script\<close>

text \<open>The namespace \<open>parser.parse_args()\<close> returns (\<open>output'\<close> is \<open>args.output\<close>).\<close>

record args =
  overwrite :: bool
  input :: string
  meta :: string
  output' :: string

definition overwrite_flag :: "args \<Rightarrow> string" where
  "overwrite_flag a = (if overwrite a then ''-y'' else ''-n'')"

text \<open>The argument list \<open>cmd\<close>; \<open>pixel_format\<close> is the lower-cased one.\<close>

definition cmd :: "args \<Rightarrow> string \<Rightarrow> string \<Rightarrow> string \<Rightarrow> string list" where
  "cmd a width height pixel_format =
     [''ffmpeg'', overwrite_flag a, ''-f'', ''image2'', ''-vcodec'', ''rawvideo'',
      ''-pix_fmt'', pixel_format, ''-s'', width @ ''x'' @ height, ''-i'', input a,
      output' a]"

text \<open>
  What a run does to the outside, in order: it opens the metadata file and it calls the
  external tool.
\<close>

datatype event = Open string | Call "string list"

text \<open>
  The script's body. \<open>fs\<close> is the file system and \<open>call\<close> is \<open>subprocess.call\<close>: it
  either raises (the tool cannot be started) or returns the tool's exit status. The result
  is the list of events and how the script ends: with an uncaught exception or normally.
\<close>

definition main :: "(string \<Rightarrow> file_entry) \<Rightarrow> (string list \<Rightarrow> py_error + int) \<Rightarrow> args
    \<Rightarrow> event list \<times> (py_error + unit)" where
  "main fs call a =
     (if \<not> endswith (output' a) ''.jpg'' \<and> \<not> endswith (output' a) ''.png''
      then ([], Inl (ValueError ''output must end in jpg or png.''))
      else
        (case parse_meta fs (meta a) of
           Inl e \<Rightarrow> ([Open (meta a)], Inl e)
         | Inr (width, height, pixel_format) \<Rightarrow>
             (let pixel_format = lower pixel_format;
                  c = cmd a width height pixel_format
              in (case call c of
                    Inl e \<Rightarrow> ([Open (meta a), Call c], Inl e)
                  | Inr status \<Rightarrow> ([Open (meta a), Call c], Inr ())))))"

text \<open>A file system with one readable file, for the concrete runs below.\<close>

definition meta_fs :: "string \<Rightarrow> string \<Rightarrow> string \<Rightarrow> file_entry" where
  "meta_fs name text path = (if path = name then Contents text else Missing)"

text \<open>The metadata file of the end-to-end scenarios.\<close>

definition example_meta :: string where
  "example_meta = ''width 640'' @ [CHR 0x0A] @ ''height 480'' @ [CHR 0x0A] @
                  ''pixel_format NV21'' @ [CHR 0x0A]"

text \<open>A metadata file whose width and height are not numbers a frame can have.\<close>

definition bad_meta :: string where
  "bad_meta = ''width abc'' @ [CHR 0x0A] @ ''height -5'' @ [CHR 0x0A] @
              ''pixel_format NV21'' @ [CHR 0x0A]"

text \<open>The events that are calls of the external tool.\<close>

definition is_call :: "event \<Rightarrow> bool" where
  "is_call e = (case e of Call c \<Rightarrow> True | Open p \<Rightarrow> False)"

text \<open>
  The shape of a metadata line, for stating what the parser accepts: \<open>blank\<close> is
  whitespace that does not end a line, a \<open>token\<close> is a non-empty string without
  whitespace, and a \<open>line_break\<close> is one of the three line endings of text mode.
\<close>

definition blank :: "string \<Rightarrow> bool" where
  "blank s \<longleftrightarrow> (\<forall>c\<in>set s. isspace c \<and> c \<noteq> CHR 0x0A \<and> c \<noteq> CHR 0x0D)"

definition token :: "string \<Rightarrow> bool" where
  "token t \<longleftrightarrow> t \<noteq> [] \<and> (\<forall>c\<in>set t. \<not> isspace c)"

definition line_break :: "string \<Rightarrow> bool" where
  "line_break nl \<longleftrightarrow> nl = [CHR 0x0A] \<or> nl = [CHR 0x0D, CHR 0x0A] \<or> nl = [CHR 0x0D]"

text \<open>
  A metadata line without its line ending: the label, one space and the value, with
  blanks before the label and after the value.
\<close>

definition meta_line :: "string \<Rightarrow> string \<Rightarrow> string \<Rightarrow> string \<Rightarrow> string" where
  "meta_line pre label v post = pre @ label @ CHR '' '' # v @ post"

text \<open>Two metadata files that cannot be parsed: one of two lines, one whose second line has no value.\<close>

definition two_line_meta :: string where
  "two_line_meta = ''width 640'' @ [CHR 0x0A] @ ''height 480'' @ [CHR 0x0A]"

definition no_value_meta :: string where
  "no_value_meta = ''width 640'' @ [CHR 0x0A] @ ''height'' @ [CHR 0x0A] @
                   ''pixel_format NV21'' @ [CHR 0x0A]"

section \<open>Facts about the string operations\<close>

lemma split_not_Nil: "split sep s \<noteq> []"
  by (induction s) (auto split: list.splits)

lemma split_no_sep: "sep \<notin> set s \<Longrightarrow> split sep s = [s]"
  by (induction s) auto

lemma split_append: "sep \<notin> set l \<Longrightarrow> split sep (l @ sep # r) = l # split sep r"
  by (induction l) auto

lemma length_split: "length (split sep s) = Suc (count_list s sep)"
  by (induction s) (auto split: list.splits simp: split_not_Nil)

lemma length_split_le1: "length (split sep s) \<le> 1 \<longleftrightarrow> sep \<notin> set s"
  by (simp add: length_split count_list_0_iff)

lemma second_token_ok:
  "CHR '' '' \<notin> set l \<Longrightarrow> CHR '' '' \<notin> set v \<Longrightarrow> second_token (l @ CHR '' '' # v) = Inr v"
  by (simp add: second_token_def split_append split_no_sep index_def)

lemma second_token_cases:
  "second_token s = (if CHR '' '' \<in> set s then Inr (split CHR '' '' s ! 1) else Inl IndexError)"
  using length_split_le1 [of "CHR '' ''" s] by (auto simp: second_token_def index_def)

lemma dropWhile_all_append: "\<forall>c\<in>set pre. P c \<Longrightarrow> dropWhile P (pre @ s) = dropWhile P s"
  by (induction pre) auto

lemma strip_line:
  assumes "\<forall>c\<in>set pre. isspace c" "\<forall>c\<in>set post. isspace c"
    and "body \<noteq> []" "\<not> isspace (hd body)" "\<not> isspace (last body)"
  shows "strip (pre @ body @ post) = body"
proof -
  have front: "dropWhile isspace (pre @ body @ post) = body @ post"
    using assms(1,3,4) by (cases body) (simp_all add: dropWhile_all_append)
  have "dropWhile isspace (rev post @ rev body) = rev body"
    using assms(2,3,5) by (cases body rule: rev_cases) (simp_all add: dropWhile_all_append)
  then show ?thesis by (simp add: strip_def front)
qed

lemma translate_no_cr:
  "CHR 0x0D \<notin> set xs \<Longrightarrow> translate_newlines (xs @ ys) = xs @ translate_newlines ys"
proof (induction xs)
  case Nil
  then show ?case by simp
next
  case (Cons c cs)
  then show ?case by (cases "cs @ ys") auto
qed

lemma readlines_line:
  "CHR 0x0A \<notin> set xs \<Longrightarrow> readlines (xs @ CHR 0x0A # ys) = (xs @ [CHR 0x0A]) # readlines ys"
  by (induction xs) auto

lemma readlines_no_lf:
  "CHR 0x0A \<notin> set xs \<Longrightarrow> readlines xs = (if xs = [] then [] else [xs])"
  by (induction xs) (auto split: list.splits)

lemma lower_NV21: "lower ''NV21'' = ''nv21''"
  by code_simp

lemma lower_char_idem: "lower_char (lower_char c) = lower_char c"
  by (auto simp: lower_char_def Let_def)

lemma lower_char_code:
  "(of_char (lower_char c) :: nat) =
     (if (65 \<le> (of_char c :: nat) \<and> (of_char c :: nat) \<le> 90) \<or>
         (192 \<le> (of_char c :: nat) \<and> (of_char c :: nat) \<le> 214) \<or>
         (216 \<le> (of_char c :: nat) \<and> (of_char c :: nat) \<le> 222)
      then of_char c + 32 else of_char c)"
  by (auto simp: lower_char_def Let_def)

lemma lower_char_not_capital:
  "\<not> (65 \<le> (of_char (lower_char c) :: nat) \<and> (of_char (lower_char c) :: nat) \<le> 90)"
  "\<not> (192 \<le> (of_char (lower_char c) :: nat) \<and> (of_char (lower_char c) :: nat) \<le> 214)"
  "\<not> (216 \<le> (of_char (lower_char c) :: nat) \<and> (of_char (lower_char c) :: nat) \<le> 222)"
  unfolding lower_char_code by (simp_all split: if_splits)

lemma lower_char_other:
  "\<not> ((65 \<le> (of_char c :: nat) \<and> (of_char c :: nat) \<le> 90) \<or>
      (192 \<le> (of_char c :: nat) \<and> (of_char c :: nat) \<le> 214) \<or>
      (216 \<le> (of_char c :: nat) \<and> (of_char c :: nat) \<le> 222)) \<Longrightarrow> lower_char c = c"
  by (auto simp: lower_char_def Let_def)

section \<open>Facts about metadata lines\<close>

lemma translate_break:
  assumes "line_break nl" "ys \<noteq> []" "hd ys \<noteq> CHR 0x0A"
  shows "translate_newlines (nl @ ys) = CHR 0x0A # translate_newlines ys"
proof -
  obtain d ds where ys: "ys = d # ds" using assms(2) by (cases ys) auto
  then have d: "d \<noteq> CHR 0x0A" using assms(3) by simp
  consider "nl = [CHR 0x0A]" | "nl = [CHR 0x0D, CHR 0x0A]" | "nl = [CHR 0x0D]"
    using assms(1) unfolding line_break_def by blast
  then show ?thesis
  proof cases
    case 1 then show ?thesis by (simp add: ys)
  next
    case 2 then show ?thesis by (simp add: ys)
  next
    case 3 then show ?thesis using d by (simp add: ys)
  qed
qed

lemma translate_line:
  assumes "CHR 0x0D \<notin> set xs" "line_break nl" "ys \<noteq> []" "hd ys \<noteq> CHR 0x0A"
  shows "translate_newlines (xs @ nl @ ys) = xs @ CHR 0x0A # translate_newlines ys"
  by (simp add: translate_no_cr [OF assms(1)] translate_break [OF assms(2-4)])


lemma translate_rest:
  assumes "rest = [] \<or> hd rest = CHR 0x0A \<or> hd rest = CHR 0x0D"
  shows "translate_newlines rest = [] \<or> (\<exists>r. translate_newlines rest = CHR 0x0A # r)"
proof (cases rest)
  case Nil
  then show ?thesis by simp
next
  case (Cons c cs)
  then have c: "c = CHR 0x0A \<or> c = CHR 0x0D" using assms by simp
  show ?thesis
  proof (cases cs)
    case Nil
    then show ?thesis using c Cons by auto
  next
    case (Cons d ds)
    then show ?thesis using c \<open>rest = c # cs\<close> by auto
  qed
qed

lemma isspace_breaks: "isspace (CHR 0x0A)" "isspace (CHR 0x0D)" "isspace CHR '' ''"
  by (simp_all add: isspace_def)

lemma token_no_break:
  assumes "token t"
  shows "CHR 0x0A \<notin> set t" "CHR 0x0D \<notin> set t" "CHR '' '' \<notin> set t"
    "t \<noteq> []" "\<not> isspace (hd t)" "\<not> isspace (last t)"
proof -
  have ns: "\<forall>c\<in>set t. \<not> isspace c" and ne: "t \<noteq> []"
    using assms by (simp_all add: token_def)
  show "CHR 0x0A \<notin> set t" "CHR 0x0D \<notin> set t" "CHR '' '' \<notin> set t"
    using ns isspace_breaks by blast+
  show "t \<noteq> []" by (rule ne)
  show "\<not> isspace (hd t)" using ns ne by simp
  show "\<not> isspace (last t)" using ns ne by simp
qed

lemma blank_no_break:
  assumes "blank s"
  shows "CHR 0x0A \<notin> set s" "CHR 0x0D \<notin> set s" "\<forall>c\<in>set s. isspace c"
  using assms by (auto simp: blank_def)


lemma meta_line_shape:
  assumes "blank pre" "blank post" "token l" "token v"
  shows "meta_line pre l v post \<noteq> []"
    and "CHR 0x0A \<notin> set (meta_line pre l v post)"
    and "CHR 0x0D \<notin> set (meta_line pre l v post)"
    and "hd (meta_line pre l v post) \<noteq> CHR 0x0A"
proof -
  show ne: "meta_line pre l v post \<noteq> []" by (simp add: meta_line_def)
  show lf: "CHR 0x0A \<notin> set (meta_line pre l v post)"
    using blank_no_break(1) [OF assms(1)] blank_no_break(1) [OF assms(2)]
      token_no_break(1) [OF assms(3)] token_no_break(1) [OF assms(4)]
    by (simp add: meta_line_def)
  show "CHR 0x0D \<notin> set (meta_line pre l v post)"
    using blank_no_break(2) [OF assms(1)] blank_no_break(2) [OF assms(2)]
      token_no_break(2) [OF assms(3)] token_no_break(2) [OF assms(4)]
    by (simp add: meta_line_def)
  show "hd (meta_line pre l v post) \<noteq> CHR 0x0A"
    using ne lf hd_in_set by metis
qed

lemma strip_meta_line:
  assumes "blank pre" "blank post" "token l" "token v"
  shows "strip (meta_line pre l v post) = l @ CHR '' '' # v"
    and "strip (meta_line pre l v post @ [CHR 0x0A]) = l @ CHR '' '' # v"
proof -
  let ?body = "l @ CHR '' '' # v"
  have b1: "?body \<noteq> []" by simp
  have b2: "\<not> isspace (hd ?body)"
    using token_no_break(4,5) [OF assms(3)] by (simp add: hd_append)
  have b3: "\<not> isspace (last ?body)"
    using token_no_break(4,6) [OF assms(4)] by simp
  have pre: "\<forall>c\<in>set pre. isspace c" by (rule blank_no_break(3) [OF assms(1)])
  have post: "\<forall>c\<in>set post. isspace c" by (rule blank_no_break(3) [OF assms(2)])
  have post': "\<forall>c\<in>set (post @ [CHR 0x0A]). isspace c"
    using post isspace_breaks(1) by simp
  show "strip (meta_line pre l v post) = ?body"
    using strip_line [OF pre post b1 b2 b3] by (simp add: meta_line_def)
  show "strip (meta_line pre l v post @ [CHR 0x0A]) = ?body"
    using strip_line [OF pre post' b1 b2 b3] by (simp add: meta_line_def)
qed


lemma parse_lines_three:
  assumes "CHR '' '' \<notin> set l0" "CHR '' '' \<notin> set v0" "CHR '' '' \<notin> set l1" "CHR '' '' \<notin> set v1"
    "CHR '' '' \<notin> set l2" "CHR '' '' \<notin> set v2"
  shows "parse_lines ((l0 @ CHR '' '' # v0) # (l1 @ CHR '' '' # v1) # (l2 @ CHR '' '' # v2) # others)
     = Inr (v0, v1, v2)"
  using assms by (simp add: parse_lines_def index_def second_token_ok)

lemma stripped_three_lines:
  assumes b: "blank pre0" "blank post0" "blank pre1" "blank post1" "blank pre2" "blank post2"
    and t: "token l0" "token v0" "token l1" "token v1" "token l2" "token v2"
    and nl: "line_break nl0" "line_break nl1"
    and rest: "rest = [] \<or> hd rest = CHR 0x0A \<or> hd rest = CHR 0x0D"
  shows "\<exists>others. stripped_lines (meta_line pre0 l0 v0 post0 @ nl0 @ meta_line pre1 l1 v1 post1 @ nl1 @
            meta_line pre2 l2 v2 post2 @ rest)
          = (l0 @ CHR '' '' # v0) # (l1 @ CHR '' '' # v1) # (l2 @ CHR '' '' # v2) # others"
proof -
  let ?L0 = "meta_line pre0 l0 v0 post0" and ?L1 = "meta_line pre1 l1 v1 post1"
    and ?L2 = "meta_line pre2 l2 v2 post2"
  note s0 = meta_line_shape [OF b(1) b(2) t(1) t(2)]
  note s1 = meta_line_shape [OF b(3) b(4) t(3) t(4)]
  note s2 = meta_line_shape [OF b(5) b(6) t(5) t(6)]
  have h2: "?L2 @ rest \<noteq> []" "hd (?L2 @ rest) \<noteq> CHR 0x0A"
    using s2(1,4) by (simp_all add: hd_append)
  have h1: "?L1 @ nl1 @ ?L2 @ rest \<noteq> []" "hd (?L1 @ nl1 @ ?L2 @ rest) \<noteq> CHR 0x0A"
    using s1(1,4) by (simp_all add: hd_append)
  have tr: "translate_newlines (?L0 @ nl0 @ ?L1 @ nl1 @ ?L2 @ rest)
      = ?L0 @ CHR 0x0A # ?L1 @ CHR 0x0A # ?L2 @ translate_newlines rest"
    by (simp only: translate_line [OF s0(3) nl(1) h1] translate_line [OF s1(3) nl(2) h2]
        translate_no_cr [OF s2(3)])
  have st: "strip (?L0 @ [CHR 0x0A]) = l0 @ CHR '' '' # v0"
    "strip (?L1 @ [CHR 0x0A]) = l1 @ CHR '' '' # v1"
    "strip (?L2 @ [CHR 0x0A]) = l2 @ CHR '' '' # v2" "strip ?L2 = l2 @ CHR '' '' # v2"
    by (rule strip_meta_line [OF b(1) b(2) t(1) t(2)] strip_meta_line [OF b(3) b(4) t(3) t(4)]
        strip_meta_line [OF b(5) b(6) t(5) t(6)])+
  from translate_rest [OF rest] show ?thesis
  proof
    assume e: "translate_newlines rest = []"
    have "readlines (?L0 @ CHR 0x0A # ?L1 @ CHR 0x0A # ?L2)
        = [?L0 @ [CHR 0x0A], ?L1 @ [CHR 0x0A], ?L2]"
      using s2(1) by (simp add: readlines_line [OF s0(2)] readlines_line [OF s1(2)]
          readlines_no_lf [OF s2(2)])
    then show ?thesis
      unfolding stripped_lines_def tr e by (simp add: st)
  next
    assume "\<exists>r. translate_newlines rest = CHR 0x0A # r"
    then obtain r where e: "translate_newlines rest = CHR 0x0A # r" ..
    have "readlines (?L0 @ CHR 0x0A # ?L1 @ CHR 0x0A # ?L2 @ CHR 0x0A # r)
        = (?L0 @ [CHR 0x0A]) # (?L1 @ [CHR 0x0A]) # (?L2 @ [CHR 0x0A]) # readlines r"
      by (simp add: readlines_line [OF s0(2)] readlines_line [OF s1(2)] readlines_line [OF s2(2)])
    then show ?thesis
      unfolding stripped_lines_def tr e by (simp add: st)
  qed
qed

section \<open>Facts about the parser\<close>

lemma ex_less_3: "(\<exists>i<3. P i) \<longleftrightarrow> P 0 \<or> P 1 \<or> P (2::nat)"
proof
  assume "\<exists>i<3. P i"
  then obtain i where "i < 3" "P i" by blast
  then have "i = 0 \<or> i = 1 \<or> i = 2" by arith
  with \<open>P i\<close> show "P 0 \<or> P 1 \<or> P 2" by blast
next
  have lt: "(0::nat) < 3" "(1::nat) < 3" "(2::nat) < 3" by simp_all
  assume "P 0 \<or> P 1 \<or> P 2"
  then show "\<exists>i<3. P i" using lt by blast
qed

lemma parse_lines_cases:
  "parse_lines ls =
     (if length ls < 3 \<or> CHR '' '' \<notin> set (ls ! 0) \<or> CHR '' '' \<notin> set (ls ! 1) \<or>
         CHR '' '' \<notin> set (ls ! 2)
      then Inl IndexError
      else Inr (split CHR '' '' (ls ! 0) ! 1, split CHR '' '' (ls ! 1) ! 1,
                split CHR '' '' (ls ! 2) ! 1))"
  by (auto simp: parse_lines_def index_def second_token_cases)

lemma index_take3: "i < 3 \<Longrightarrow> index (take 3 ls) i = index ls i"
  by (simp add: index_def)

lemma parse_lines_take3: "parse_lines (take 3 ls) = parse_lines ls"
proof -
  have "index (take 3 ls) 0 = index ls 0" "index (take 3 ls) 1 = index ls 1"
    "index (take 3 ls) 2 = index ls 2"
    by (simp_all add: index_take3)
  then show ?thesis
    unfolding parse_lines_def by (simp only:)
qed

lemma translate_lf: "translate_newlines (CHR 0x0A # ys) = CHR 0x0A # translate_newlines ys"
  by (cases ys) simp_all

lemma translate_snoc:
  "translate_newlines (xs @ CHR 0x0A # ys) = translate_newlines (xs @ [CHR 0x0A]) @ translate_newlines ys"
  by (induction xs rule: translate_newlines.induct) (simp_all add: translate_lf)

lemma translate_ends_lf: "\<exists>zs. translate_newlines (xs @ [CHR 0x0A]) = zs @ [CHR 0x0A]"
  by (induction xs rule: translate_newlines.induct) auto

lemma readlines_Nil_iff: "readlines xs = [] \<longleftrightarrow> xs = []"
  by (cases xs) (auto split: list.splits)

lemma readlines_snoc:
  "readlines (zs @ CHR 0x0A # ys) = readlines (zs @ [CHR 0x0A]) @ readlines ys"
  by (induction zs) (auto split: list.splits simp: readlines_Nil_iff)

lemma lines_extra:
  "readlines (translate_newlines (body @ CHR 0x0A # extra)) =
   readlines (translate_newlines (body @ [CHR 0x0A])) @ readlines (translate_newlines extra)"
proof -
  obtain zs where zs: "translate_newlines (body @ [CHR 0x0A]) = zs @ [CHR 0x0A]"
    using translate_ends_lf by blast
  show ?thesis
    by (simp add: translate_snoc [of body extra] zs readlines_snoc [of zs "translate_newlines extra"])
qed

lemma parse_meta_contents:
  assumes "fs path = Contents content"
  shows "parse_meta fs path = Inl IndexError \<longleftrightarrow>
      length (readlines (translate_newlines content)) < 3 \<or>
      (\<exists>i<3. CHR '' '' \<notin> set (strip (readlines (translate_newlines content) ! i)))"
    and "parse_meta fs path = Inl e \<Longrightarrow> e = IndexError"
proof -
  let ?ls = "readlines (translate_newlines content)"
  have pm: "parse_meta fs path = parse_lines (map strip ?ls)"
    by (simp add: parse_meta_def assms stripped_lines_def)
  show "parse_meta fs path = Inl IndexError \<longleftrightarrow>
      length ?ls < 3 \<or> (\<exists>i<3. CHR '' '' \<notin> set (strip (?ls ! i)))"
  proof (cases "length ?ls < 3")
    case True
    then show ?thesis by (simp add: pm parse_lines_cases)
  next
    case False
    then have "0 < length ?ls" "1 < length ?ls" "2 < length ?ls"
      by arith+
    then have "map strip ?ls ! 0 = strip (?ls ! 0)" "map strip ?ls ! 1 = strip (?ls ! 1)"
      "map strip ?ls ! 2 = strip (?ls ! 2)"
      by (simp_all only: nth_map)
    then show ?thesis using False by (simp add: pm parse_lines_cases ex_less_3)
  qed
  show "parse_meta fs path = Inl e \<Longrightarrow> e = IndexError"
    by (simp add: pm parse_lines_cases split: if_splits)
qed

section \<open>Facts about the script\<close>

lemma main_invalid:
  "\<not> endswith (output' a) ''.jpg'' \<Longrightarrow> \<not> endswith (output' a) ''.png'' \<Longrightarrow>
   main fs call a = ([], Inl (ValueError ''output must end in jpg or png.''))"
  by (simp add: main_def)

lemma main_meta_error:
  "endswith (output' a) ''.jpg'' \<or> endswith (output' a) ''.png'' \<Longrightarrow>
   parse_meta fs (meta a) = Inl e \<Longrightarrow> main fs call a = ([Open (meta a)], Inl e)"
  by (auto simp: main_def)

lemma main_call:
  "endswith (output' a) ''.jpg'' \<or> endswith (output' a) ''.png'' \<Longrightarrow>
   parse_meta fs (meta a) = Inr (w, h, p) \<Longrightarrow>
   main fs call a =
     ([Open (meta a), Call (cmd a w h (lower p))],
      (case call (cmd a w h (lower p)) of Inl e \<Rightarrow> Inl e | Inr status \<Rightarrow> Inr ()))"
  by (auto simp: main_def Let_def split: sum.splits)

lemma parse_example:
  "parse_meta (meta_fs ''meta.txt'' example_meta) ''meta.txt'' = Inr (''640'', ''480'', ''NV21'')"
  by (simp add: example_meta_def meta_fs_def parse_meta_def stripped_lines_def parse_lines_def
      index_def second_token_def strip_def isspace_def)

lemma parse_bad_meta:
  "parse_meta (meta_fs ''meta.txt'' bad_meta) ''meta.txt'' = Inr (''abc'', ''-5'', ''NV21'')"
  by (simp add: bad_meta_def meta_fs_def parse_meta_def stripped_lines_def parse_lines_def
      index_def second_token_def strip_def isspace_def)



section \<open>The end-to-end scenario\<close>

text \<open>
  Claim C1. When the metadata file parses to width 640, height 480 and pixel format NV21,
  and the script is run with input \<open>input.nv21\<close>, output \<open>out.jpg\<close> and no overwrite
  flag, the argument list handed to the external tool is, in order: \<open>ffmpeg\<close>, \<open>-n\<close>,
  \<open>-f image2\<close>, \<open>-vcodec rawvideo\<close>, \<open>-pix_fmt nv21\<close>, \<open>-s 640x480\<close>,
  \<open>-i input.nv21\<close> and \<open>out.jpg\<close>.
\<close>

theorem end_to_end_jpg:
  assumes "parse_meta fs (meta a) = Inr (''640'', ''480'', ''NV21'')"
    and "input a = ''input.nv21''" and "output' a = ''out.jpg''" and "\<not> overwrite a"
  shows "fst (main fs call a) =
     [Open (meta a),
      Call [''ffmpeg'', ''-n'', ''-f'', ''image2'', ''-vcodec'', ''rawvideo'',
            ''-pix_fmt'', ''nv21'', ''-s'', ''640x480'', ''-i'', ''input.nv21'', ''out.jpg'']]"
proof -
  have "endswith (output' a) ''.jpg''"
    using assms(3) by (simp add: endswith_def)
  then have "fst (main fs call a) = [Open (meta a), Call (cmd a ''640'' ''480'' (lower ''NV21''))]"
    using main_call [OF _ assms(1)] by simp
  then show ?thesis
    using assms(2-4) by (simp add: cmd_def overwrite_flag_def lower_NV21)
qed

theorem end_to_end_jpg_witness:
  "fst (main (meta_fs ''meta.txt'' example_meta) (\<lambda>c. Inr 0)
         \<lparr>overwrite = False, input = ''input.nv21'', meta = ''meta.txt'', output' = ''out.jpg''\<rparr>) =
     [Open ''meta.txt'',
      Call [''ffmpeg'', ''-n'', ''-f'', ''image2'', ''-vcodec'', ''rawvideo'',
            ''-pix_fmt'', ''nv21'', ''-s'', ''640x480'', ''-i'', ''input.nv21'', ''out.jpg'']]"
  using end_to_end_jpg [of "meta_fs ''meta.txt'' example_meta"
      "\<lparr>overwrite = False, input = ''input.nv21'', meta = ''meta.txt'', output' = ''out.jpg''\<rparr>"
      "\<lambda>c. Inr 0"]
    parse_example
  by simp

section \<open>The output extension\<close>

text \<open>
  Claim C4. An output path that ends neither in \<open>.jpg\<close> nor in \<open>.png\<close> (the match is
  case-sensitive) makes the script fail with the validation error before anything else
  happens: the metadata file is not opened and the external tool is not called. An output
  path that ends in \<open>.jpg\<close> or \<open>.png\<close> passes the check: the script goes on and opens
  the metadata file.
\<close>

theorem output_extension_check:
  "(\<not> endswith (output' a) ''.jpg'' \<and> \<not> endswith (output' a) ''.png'' \<longrightarrow>
      main fs call a = ([], Inl (ValueError ''output must end in jpg or png.''))) \<and>
   (endswith (output' a) ''.jpg'' \<or> endswith (output' a) ''.png'' \<longrightarrow>
      take 1 (fst (main fs call a)) = [Open (meta a)])"
  by (auto simp: main_def Let_def split: sum.splits)

theorem output_extension_check_witness:
  "main (meta_fs ''meta.txt'' example_meta) (\<lambda>c. Inr 0)
      \<lparr>overwrite = False, input = ''input.nv21'', meta = ''meta.txt'', output' = ''out.gif''\<rparr>
     = ([], Inl (ValueError ''output must end in jpg or png.'')) \<and>
   main (meta_fs ''meta.txt'' example_meta) (\<lambda>c. Inr 0)
      \<lparr>overwrite = False, input = ''input.nv21'', meta = ''meta.txt'', output' = ''out''\<rparr>
     = ([], Inl (ValueError ''output must end in jpg or png.'')) \<and>
   main (meta_fs ''meta.txt'' example_meta) (\<lambda>c. Inr 0)
      \<lparr>overwrite = False, input = ''input.nv21'', meta = ''meta.txt'', output' = ''out.JPG''\<rparr>
     = ([], Inl (ValueError ''output must end in jpg or png.'')) \<and>
   take 1 (fst (main (meta_fs ''meta.txt'' example_meta) (\<lambda>c. Inr 0)
      \<lparr>overwrite = False, input = ''input.nv21'', meta = ''meta.txt'', output' = ''out.jpg''\<rparr>))
     = [Open ''meta.txt''] \<and>
   take 1 (fst (main (meta_fs ''meta.txt'' example_meta) (\<lambda>c. Inr 0)
      \<lparr>overwrite = False, input = ''input.nv21'', meta = ''meta.txt'', output' = ''out.png''\<rparr>))
     = [Open ''meta.txt'']"
  using
    output_extension_check [of "\<lparr>overwrite = False, input = ''input.nv21'', meta = ''meta.txt'', output' = ''out.gif''\<rparr>"
      "meta_fs ''meta.txt'' example_meta" "\<lambda>c. Inr 0"]
    output_extension_check [of "\<lparr>overwrite = False, input = ''input.nv21'', meta = ''meta.txt'', output' = ''out''\<rparr>"
      "meta_fs ''meta.txt'' example_meta" "\<lambda>c. Inr 0"]
    output_extension_check [of "\<lparr>overwrite = False, input = ''input.nv21'', meta = ''meta.txt'', output' = ''out.JPG''\<rparr>"
      "meta_fs ''meta.txt'' example_meta" "\<lambda>c. Inr 0"]
    output_extension_check [of "\<lparr>overwrite = False, input = ''input.nv21'', meta = ''meta.txt'', output' = ''out.jpg''\<rparr>"
      "meta_fs ''meta.txt'' example_meta" "\<lambda>c. Inr 0"]
    output_extension_check [of "\<lparr>overwrite = False, input = ''input.nv21'', meta = ''meta.txt'', output' = ''out.png''\<rparr>"
      "meta_fs ''meta.txt'' example_meta" "\<lambda>c. Inr 0"]
  by (simp add: endswith_def)

section \<open>The built command\<close>




text \<open>
  Claim C6. When the script reaches the external tool, the value after \<open>-pix_fmt\<close> is
  the metadata's pixel format lower-cased: it has the length of the pixel format; at every
  position its character is the pixel format's character moved up by 32 when that one is
  a capital letter (codes 65-90, 192-214 and 216-222) and the very same character
  otherwise; so no character A-Z is left in it, and lower-casing it again changes nothing.
  The value after \<open>-s\<close> is the parsed width, the character \<open>x\<close> and the parsed height,
  with nothing else.
\<close>

theorem pixel_format_and_size_tokens:
  assumes "endswith (output' a) ''.jpg'' \<or> endswith (output' a) ''.png''"
    and "parse_meta fs (meta a) = Inr (w, h, p)"
  shows "\<exists>c. fst (main fs call a) = [Open (meta a), Call c] \<and>
     c ! 6 = ''-pix_fmt'' \<and> c ! 7 = lower p \<and> lower (c ! 7) = c ! 7 \<and>
     length (c ! 7) = length p \<and>
     (\<forall>i<length p. (of_char (c ! 7 ! i) :: nat) =
        (if (65 \<le> (of_char (p ! i) :: nat) \<and> (of_char (p ! i) :: nat) \<le> 90) \<or>
            (192 \<le> (of_char (p ! i) :: nat) \<and> (of_char (p ! i) :: nat) \<le> 214) \<or>
            (216 \<le> (of_char (p ! i) :: nat) \<and> (of_char (p ! i) :: nat) \<le> 222)
         then of_char (p ! i) + 32 else of_char (p ! i))) \<and>
     (\<forall>ch\<in>set (c ! 7). \<not> (65 \<le> (of_char ch :: nat) \<and> (of_char ch :: nat) \<le> 90)) \<and>
     c ! 8 = ''-s'' \<and> c ! 9 = w @ ''x'' @ h"
proof -
  let ?c = "cmd a w h (lower p)"
  have run: "fst (main fs call a) = [Open (meta a), Call ?c]"
    using main_call [OF assms, of call] by simp
  have tok: "?c ! 6 = ''-pix_fmt''" "?c ! 7 = lower p" "?c ! 8 = ''-s''" "?c ! 9 = w @ ''x'' @ h"
    by (simp_all add: cmd_def)
  have idem: "lower (lower p) = lower p"
    by (simp add: lower_def lower_char_idem)
  have len: "length (lower p) = length p"
    by (simp add: lower_def)
  have code: "\<forall>i<length p. (of_char (lower p ! i) :: nat) =
        (if (65 \<le> (of_char (p ! i) :: nat) \<and> (of_char (p ! i) :: nat) \<le> 90) \<or>
            (192 \<le> (of_char (p ! i) :: nat) \<and> (of_char (p ! i) :: nat) \<le> 214) \<or>
            (216 \<le> (of_char (p ! i) :: nat) \<and> (of_char (p ! i) :: nat) \<le> 222)
         then of_char (p ! i) + 32 else of_char (p ! i))"
  proof (intro allI impI)
    fix i assume "i < length p"
    then have "lower p ! i = lower_char (p ! i)"
      by (simp add: lower_def)
    then show "(of_char (lower p ! i) :: nat) =
        (if (65 \<le> (of_char (p ! i) :: nat) \<and> (of_char (p ! i) :: nat) \<le> 90) \<or>
            (192 \<le> (of_char (p ! i) :: nat) \<and> (of_char (p ! i) :: nat) \<le> 214) \<or>
            (216 \<le> (of_char (p ! i) :: nat) \<and> (of_char (p ! i) :: nat) \<le> 222)
         then of_char (p ! i) + 32 else of_char (p ! i))"
      by (simp only: lower_char_code)
  qed
  have nocap: "\<forall>ch\<in>set (lower p). \<not> (65 \<le> (of_char ch :: nat) \<and> (of_char ch :: nat) \<le> 90)"
    using lower_char_not_capital(1) by (auto simp: lower_def)
  show ?thesis
    by (rule exI [of _ ?c], simp only: tok) (intro conjI run idem len code nocap refl)
qed

theorem pixel_format_and_size_tokens_witness:
  "\<exists>c. fst (main (meta_fs ''meta.txt'' example_meta) (\<lambda>c. Inr 0)
      \<lparr>overwrite = False, input = ''input.nv21'', meta = ''meta.txt'', output' = ''out.jpg''\<rparr>)
       = [Open ''meta.txt'', Call c] \<and>
     c ! 6 = ''-pix_fmt'' \<and> c ! 7 = ''nv21'' \<and> c ! 8 = ''-s'' \<and> c ! 9 = ''640x480''"
proof -
  have v: "endswith (output' \<lparr>overwrite = False, input = ''input.nv21'', meta = ''meta.txt'', output' = ''out.jpg''\<rparr>) ''.jpg'' \<or>
      endswith (output' \<lparr>overwrite = False, input = ''input.nv21'', meta = ''meta.txt'', output' = ''out.jpg''\<rparr>) ''.png''"
    by (simp add: endswith_def)
  have p: "parse_meta (meta_fs ''meta.txt'' example_meta)
      (meta \<lparr>overwrite = False, input = ''input.nv21'', meta = ''meta.txt'', output' = ''out.jpg''\<rparr>)
      = Inr (''640'', ''480'', ''NV21'')"
    using parse_example by simp
  from pixel_format_and_size_tokens [OF v p, of "\<lambda>c. Inr 0"]
  obtain c where "fst (main (meta_fs ''meta.txt'' example_meta) (\<lambda>c. Inr 0)
      \<lparr>overwrite = False, input = ''input.nv21'', meta = ''meta.txt'', output' = ''out.jpg''\<rparr>)
       = [Open ''meta.txt'', Call c]"
    "c ! 6 = ''-pix_fmt''" "c ! 7 = lower ''NV21''" "c ! 8 = ''-s''" "c ! 9 = ''640'' @ ''x'' @ ''480''"
    by auto
  then show ?thesis by (intro exI [of _ c]) (simp add: lower_NV21)
qed

text \<open>
  Claim C9. Whatever width and height strings the metadata parser returns, numbers or not,
  the command is built and handed to the external tool with the two strings verbatim in
  the size value; the script raises nothing of its own on the way, so it can only fail
  where the call of the tool itself raises.
\<close>

theorem no_numeric_validation:
  assumes "endswith (output' a) ''.jpg'' \<or> endswith (output' a) ''.png''"
    and "parse_meta fs (meta a) = Inr (w, h, p)"
  shows "main fs call a =
      ([Open (meta a), Call (cmd a w h (lower p))],
       (case call (cmd a w h (lower p)) of Inl e \<Rightarrow> Inl e | Inr status \<Rightarrow> Inr ())) \<and>
     cmd a w h (lower p) ! 9 = w @ ''x'' @ h"
  using main_call [OF assms, of call] by (simp add: cmd_def)

theorem no_numeric_validation_witness:
  "main (meta_fs ''meta.txt'' bad_meta) (\<lambda>c. Inr 0)
      \<lparr>overwrite = False, input = ''input.nv21'', meta = ''meta.txt'', output' = ''out.jpg''\<rparr> =
     ([Open ''meta.txt'',
       Call [''ffmpeg'', ''-n'', ''-f'', ''image2'', ''-vcodec'', ''rawvideo'',
            ''-pix_fmt'', ''nv21'', ''-s'', ''abcx-5'', ''-i'', ''input.nv21'', ''out.jpg'']],
      Inr ())"
  using no_numeric_validation [of
      "\<lparr>overwrite = False, input = ''input.nv21'', meta = ''meta.txt'', output' = ''out.jpg''\<rparr>"
      "meta_fs ''meta.txt'' bad_meta" "''abc''" "''-5''" "''NV21''" "\<lambda>c. Inr 0"]
    parse_bad_meta
  by (simp add: endswith_def lower_NV21 cmd_def overwrite_flag_def)

section \<open>The order of the steps\<close>

text \<open>
  Claim C7, as stated, puts metadata parsing before the check of the output extension.
  The script checks the extension first: with a missing metadata file and the output
  path \<open>out.gif\<close> the run ends with the validation error, and the metadata file is not
  even opened.
\<close>

theorem metadata_failure_first_counterexample:
  "parse_meta (\<lambda>p. Missing) ''meta.txt'' = Inl FileNotFoundError \<and>
   \<not> endswith ''out.gif'' ''.jpg'' \<and> \<not> endswith ''out.gif'' ''.png'' \<and>
   main (\<lambda>p. Missing) (\<lambda>c. Inr 0)
      \<lparr>overwrite = False, input = ''input.nv21'', meta = ''meta.txt'', output' = ''out.gif''\<rparr>
     = ([], Inl (ValueError ''output must end in jpg or png.'')) \<and>
   snd (main (\<lambda>p. Missing) (\<lambda>c. Inr 0)
      \<lparr>overwrite = False, input = ''input.nv21'', meta = ''meta.txt'', output' = ''out.gif''\<rparr>)
     \<noteq> Inl FileNotFoundError"
  by (simp add: parse_meta_def main_def endswith_def)

text \<open>
  Claim C7, amended. The steps are sequential in this order: the output extension is
  validated, then the metadata file is parsed, then the command is built and handed to
  the external tool, then the script ends. An invalid extension fails the run whatever
  the metadata file is; with a valid extension a parsing failure ends the run after the
  file was opened and before any call; otherwise the file is opened, the tool is called
  once with the built command, and the run ends as the call does.
\<close>

theorem script_order:
  "(\<not> endswith (output' a) ''.jpg'' \<and> \<not> endswith (output' a) ''.png'' \<longrightarrow>
      main fs call a = ([], Inl (ValueError ''output must end in jpg or png.''))) \<and>
   (endswith (output' a) ''.jpg'' \<or> endswith (output' a) ''.png'' \<longrightarrow>
      (\<forall>e. parse_meta fs (meta a) = Inl e \<longrightarrow> main fs call a = ([Open (meta a)], Inl e)) \<and>
      (\<forall>w h p. parse_meta fs (meta a) = Inr (w, h, p) \<longrightarrow>
         main fs call a =
           ([Open (meta a), Call (cmd a w h (lower p))],
            (case call (cmd a w h (lower p)) of Inl e \<Rightarrow> Inl e | Inr status \<Rightarrow> Inr ()))))"
  using main_invalid [of a fs call] main_meta_error [of a fs _ call] main_call [of a fs _ _ _ call]
  by blast

theorem script_order_witness:
  "main (\<lambda>p. Missing) (\<lambda>c. Inr 0)
      \<lparr>overwrite = False, input = ''input.nv21'', meta = ''meta.txt'', output' = ''out.gif''\<rparr>
     = ([], Inl (ValueError ''output must end in jpg or png.'')) \<and>
   main (\<lambda>p. Missing) (\<lambda>c. Inr 0)
      \<lparr>overwrite = False, input = ''input.nv21'', meta = ''meta.txt'', output' = ''out.jpg''\<rparr>
     = ([Open ''meta.txt''], Inl FileNotFoundError) \<and>
   main (meta_fs ''meta.txt'' example_meta) (\<lambda>c. Inr 0)
      \<lparr>overwrite = False, input = ''input.nv21'', meta = ''meta.txt'', output' = ''out.jpg''\<rparr>
     = ([Open ''meta.txt'',
         Call [''ffmpeg'', ''-n'', ''-f'', ''image2'', ''-vcodec'', ''rawvideo'',
            ''-pix_fmt'', ''nv21'', ''-s'', ''640x480'', ''-i'', ''input.nv21'', ''out.jpg'']],
        Inr ())"
proof -
  have missing: "parse_meta (\<lambda>p. Missing) ''meta.txt'' = Inl FileNotFoundError"
    by (simp add: parse_meta_def)
  show ?thesis
    using
      script_order [of "\<lparr>overwrite = False, input = ''input.nv21'', meta = ''meta.txt'', output' = ''out.gif''\<rparr>"
        "\<lambda>p. Missing" "\<lambda>c. Inr 0"]
      script_order [of "\<lparr>overwrite = False, input = ''input.nv21'', meta = ''meta.txt'', output' = ''out.jpg''\<rparr>"
        "\<lambda>p. Missing" "\<lambda>c. Inr 0"]
      script_order [of "\<lparr>overwrite = False, input = ''input.nv21'', meta = ''meta.txt'', output' = ''out.jpg''\<rparr>"
        "meta_fs ''meta.txt'' example_meta" "\<lambda>c. Inr 0"]
      missing parse_example
    by (simp add: endswith_def lower_NV21 cmd_def overwrite_flag_def)
qed

section \<open>The external invocation\<close>

text \<open>
  Claim C8. A run calls the external tool at most once, and exactly once when the
  extension is valid and the metadata parses. The script's result does not depend on the
  exit status the tool returns: whenever the call returns a status, the run ends normally
  after that one call, and two tools that differ only in their exit status give the same
  run.
\<close>

theorem exit_status_ignored:
  "length (filter is_call (fst (main fs call a))) \<le> 1 \<and>
   main fs (\<lambda>c. Inr s1) a = main fs (\<lambda>c. Inr s2) a \<and>
   ((endswith (output' a) ''.jpg'' \<or> endswith (output' a) ''.png'') \<and>
    parse_meta fs (meta a) = Inr (w, h, p) \<and> call (cmd a w h (lower p)) = Inr s \<longrightarrow>
      main fs call a = ([Open (meta a), Call (cmd a w h (lower p))], Inr ()) \<and>
      length (filter is_call (fst (main fs call a))) = 1)"
  by (auto simp: main_def Let_def is_call_def split: sum.splits)

theorem exit_status_ignored_witness:
  "main (meta_fs ''meta.txt'' example_meta) (\<lambda>c. Inr 0)
      \<lparr>overwrite = False, input = ''input.nv21'', meta = ''meta.txt'', output' = ''out.jpg''\<rparr>
     = ([Open ''meta.txt'',
         Call [''ffmpeg'', ''-n'', ''-f'', ''image2'', ''-vcodec'', ''rawvideo'',
            ''-pix_fmt'', ''nv21'', ''-s'', ''640x480'', ''-i'', ''input.nv21'', ''out.jpg'']],
        Inr ()) \<and>
   main (meta_fs ''meta.txt'' example_meta) (\<lambda>c. Inr 1)
      \<lparr>overwrite = False, input = ''input.nv21'', meta = ''meta.txt'', output' = ''out.jpg''\<rparr>
     = ([Open ''meta.txt'',
         Call [''ffmpeg'', ''-n'', ''-f'', ''image2'', ''-vcodec'', ''rawvideo'',
            ''-pix_fmt'', ''nv21'', ''-s'', ''640x480'', ''-i'', ''input.nv21'', ''out.jpg'']],
        Inr ()) \<and>
   length (filter is_call (fst (main (meta_fs ''meta.txt'' example_meta) (\<lambda>c. Inr 1)
      \<lparr>overwrite = False, input = ''input.nv21'', meta = ''meta.txt'', output' = ''out.jpg''\<rparr>))) = 1"
  using
    exit_status_ignored [of "meta_fs ''meta.txt'' example_meta" "\<lambda>c. Inr 0"
      "\<lparr>overwrite = False, input = ''input.nv21'', meta = ''meta.txt'', output' = ''out.jpg''\<rparr>"
      0 1 "''640''" "''480''" "''NV21''" 0]
    exit_status_ignored [of "meta_fs ''meta.txt'' example_meta" "\<lambda>c. Inr 1"
      "\<lparr>overwrite = False, input = ''input.nv21'', meta = ''meta.txt'', output' = ''out.jpg''\<rparr>"
      0 1 "''640''" "''480''" "''NV21''" 1]
    parse_example
  by (simp add: endswith_def lower_NV21 cmd_def overwrite_flag_def)

section \<open>Parsing a well-formed metadata file\<close>

text \<open>
  Claim C2, as stated, lets extra whitespace stand anywhere around the tokens. Between the
  label and the value it is not harmless: with two spaces in \<open>width  640\<close> the second
  piece of the split is the empty string, so the width returned is empty, and with a tab
  in place of the space the line has no second piece and parsing raises \<open>IndexError\<close>.
\<close>

theorem parse_meta_extra_space_counterexample:
  "parse_meta (meta_fs ''meta.txt''
       (''width  640'' @ [CHR 0x0A] @ ''height 480'' @ [CHR 0x0A] @ ''pixel_format NV21'' @ [CHR 0x0A]))
     ''meta.txt'' = Inr ('''', ''480'', ''NV21'') \<and>
   parse_meta (meta_fs ''meta.txt''
       (''width  640'' @ [CHR 0x0A] @ ''height 480'' @ [CHR 0x0A] @ ''pixel_format NV21'' @ [CHR 0x0A]))
     ''meta.txt'' \<noteq> Inr (''640'', ''480'', ''NV21'') \<and>
   parse_meta (meta_fs ''meta.txt''
       (''width'' @ [CHR 0x09] @ ''640'' @ [CHR 0x0A] @ ''height 480'' @ [CHR 0x0A] @ ''pixel_format NV21'' @ [CHR 0x0A]))
     ''meta.txt'' = Inl IndexError"
  by (simp add: meta_fs_def parse_meta_def stripped_lines_def parse_lines_def
      index_def second_token_def strip_def isspace_def)

text \<open>
  Claim C2, amended. When the first three lines are \<open>width w\<close>, \<open>height h\<close> and
  \<open>pixel_format p\<close>, each with exactly one space between label and value, and \<open>w\<close>,
  \<open>h\<close>, \<open>p\<close> are non-empty and free of whitespace, parsing returns exactly
  \<open>(w, h, p)\<close>, whatever whitespace stands before the label and after the value of each
  line, whichever line ending closes a line, and whatever follows the third line.
\<close>

theorem parse_meta_well_formed:
  assumes "blank pre0" "blank post0" "blank pre1" "blank post1" "blank pre2" "blank post2"
    and "token w" "token h" "token p"
    and "line_break nl0" "line_break nl1"
    and "rest = [] \<or> hd rest = CHR 0x0A \<or> hd rest = CHR 0x0D"
    and "fs path = Contents (meta_line pre0 ''width'' w post0 @ nl0 @
                              meta_line pre1 ''height'' h post1 @ nl1 @
                              meta_line pre2 ''pixel_format'' p post2 @ rest)"
  shows "parse_meta fs path = Inr (w, h, p)"
proof -
  have labels: "token ''width''" "token ''height''" "token ''pixel_format''"
    by (simp_all add: token_def isspace_def)
  obtain others where lines:
    "stripped_lines (meta_line pre0 ''width'' w post0 @ nl0 @ meta_line pre1 ''height'' h post1 @ nl1 @
        meta_line pre2 ''pixel_format'' p post2 @ rest)
      = (''width'' @ CHR '' '' # w) # (''height'' @ CHR '' '' # h) #
        (''pixel_format'' @ CHR '' '' # p) # others"
    using stripped_three_lines [OF assms(1-6) labels(1) assms(7) labels(2) assms(8) labels(3)
        assms(9) assms(10) assms(11) assms(12)]
    by blast
  have "parse_lines ((''width'' @ CHR '' '' # w) # (''height'' @ CHR '' '' # h) #
        (''pixel_format'' @ CHR '' '' # p) # others) = Inr (w, h, p)"
    by (rule parse_lines_three)
      (simp_all add: token_no_break(3) [OF assms(7)] token_no_break(3) [OF assms(8)]
        token_no_break(3) [OF assms(9)])
  then show ?thesis
    by (simp only: parse_meta_def assms(13) file_entry.case lines)
qed

theorem parse_meta_well_formed_witness:
  "parse_meta (meta_fs ''meta.txt''
       (''  width 640'' @ [CHR 0x09, CHR 0x0D, CHR 0x0A, CHR 0x09] @ ''height 480 '' @ [CHR 0x0A] @
        ''pixel_format NV21  '' @ [CHR 0x0A] @ ''comment''))
     ''meta.txt'' = Inr (''640'', ''480'', ''NV21'')"
  using parse_meta_well_formed [where ?pre0.0 = "''  ''" and ?post0.0 = "[CHR 0x09]"
      and ?pre1.0 = "[CHR 0x09]" and ?post1.0 = "'' ''" and ?pre2.0 = "[]" and ?post2.0 = "''  ''"
      and w = "''640''" and h = "''480''" and p = "''NV21''"
      and ?nl0.0 = "[CHR 0x0D, CHR 0x0A]" and ?nl1.0 = "[CHR 0x0A]"
      and rest = "CHR 0x0A # ''comment''" and path = "''meta.txt''"
      and fs = "meta_fs ''meta.txt''
       (''  width 640'' @ [CHR 0x09, CHR 0x0D, CHR 0x0A, CHR 0x09] @ ''height 480 '' @ [CHR 0x0A] @
        ''pixel_format NV21  '' @ [CHR 0x0A] @ ''comment'')"]
  by (simp add: blank_def token_def isspace_def line_break_def meta_line_def meta_fs_def)

section \<open>Failures of the metadata parser\<close>

text \<open>
  Claim C3. \<open>parse_meta\<close> fails with a file-access error when the metadata path is
  missing or unreadable. On a readable file it fails with \<open>IndexError\<close> exactly when the
  file has fewer than three lines or one of the first three lines, once stripped, has no
  space, hence no second piece; it fails with no other error. Whenever \<open>parse_meta\<close>
  fails on the metadata path, the run ends with an uncaught error and never calls the
  external tool, and with a valid output extension that error is the parser's own, raised
  right after the file was opened.
\<close>

theorem parse_meta_failures:
  "(fs path = Missing \<longrightarrow> parse_meta fs path = Inl FileNotFoundError) \<and>
   (fs path = Unreadable \<longrightarrow> parse_meta fs path = Inl PermissionError) \<and>
   (\<forall>content. fs path = Contents content \<longrightarrow>
      (parse_meta fs path = Inl IndexError \<longleftrightarrow>
         length (readlines (translate_newlines content)) < 3 \<or>
         (\<exists>i<3. CHR '' '' \<notin> set (strip (readlines (translate_newlines content) ! i)))) \<and>
      (\<forall>e. parse_meta fs path = Inl e \<longrightarrow> e = IndexError)) \<and>
   (\<forall>e. parse_meta fs (meta a) = Inl e \<longrightarrow>
      (\<forall>c. Call c \<notin> set (fst (main fs call a))) \<and>
      (\<exists>e'. snd (main fs call a) = Inl e') \<and>
      (endswith (output' a) ''.jpg'' \<or> endswith (output' a) ''.png'' \<longrightarrow>
         main fs call a = ([Open (meta a)], Inl e)))"
proof (intro conjI allI impI)
  show "parse_meta fs path = Inl FileNotFoundError" if "fs path = Missing"
    using that by (simp add: parse_meta_def)
  show "parse_meta fs path = Inl PermissionError" if "fs path = Unreadable"
    using that by (simp add: parse_meta_def)
  show "parse_meta fs path = Inl IndexError \<longleftrightarrow>
      length (readlines (translate_newlines content)) < 3 \<or>
      (\<exists>i<3. CHR '' '' \<notin> set (strip (readlines (translate_newlines content) ! i)))"
    if "fs path = Contents content" for content
    using parse_meta_contents(1) [of fs path content] that by blast
  show "e = IndexError" if "fs path = Contents content" "parse_meta fs path = Inl e" for content e
    using parse_meta_contents(2) [of fs path content e] that by blast
  show "Call c \<notin> set (fst (main fs call a))" if "parse_meta fs (meta a) = Inl e" for e c
    using that by (simp add: main_def)
  show "\<exists>e'. snd (main fs call a) = Inl e'" if "parse_meta fs (meta a) = Inl e" for e
    using that by (simp add: main_def)
  show "main fs call a = ([Open (meta a)], Inl e)"
    if "parse_meta fs (meta a) = Inl e"
      "endswith (output' a) ''.jpg'' \<or> endswith (output' a) ''.png''" for e
    using main_meta_error [of a fs e call] that by blast
qed

theorem parse_meta_failures_witness:
  "parse_meta (\<lambda>p. Missing) ''meta.txt'' = Inl FileNotFoundError \<and>
   parse_meta (\<lambda>p. Unreadable) ''meta.txt'' = Inl PermissionError \<and>
   parse_meta (meta_fs ''meta.txt'' two_line_meta) ''meta.txt'' = Inl IndexError \<and>
   parse_meta (meta_fs ''meta.txt'' no_value_meta) ''meta.txt'' = Inl IndexError \<and>
   main (meta_fs ''meta.txt'' two_line_meta) (\<lambda>c. Inr 0)
      \<lparr>overwrite = False, input = ''input.nv21'', meta = ''meta.txt'', output' = ''out.jpg''\<rparr>
     = ([Open ''meta.txt''], Inl IndexError)"
proof -
  let ?a = "\<lparr>overwrite = False, input = ''input.nv21'', meta = ''meta.txt'', output' = ''out.jpg''\<rparr>"
  have two: "length (readlines (translate_newlines two_line_meta)) < 3"
    by (simp add: two_line_meta_def)
  have nov: "\<exists>i<3. CHR '' '' \<notin> set (strip (readlines (translate_newlines no_value_meta) ! i))"
    by (simp add: ex_less_3 no_value_meta_def strip_def isspace_def)
  have m: "parse_meta (\<lambda>p. Missing) ''meta.txt'' = Inl FileNotFoundError"
    using parse_meta_failures [of "\<lambda>p. Missing" "''meta.txt''" ?a "\<lambda>c. Inr 0"] by simp
  have u: "parse_meta (\<lambda>p. Unreadable) ''meta.txt'' = Inl PermissionError"
    using parse_meta_failures [of "\<lambda>p. Unreadable" "''meta.txt''" ?a "\<lambda>c. Inr 0"] by simp
  have t: "parse_meta (meta_fs ''meta.txt'' two_line_meta) ''meta.txt'' = Inl IndexError"
    using parse_meta_failures [of "meta_fs ''meta.txt'' two_line_meta" "''meta.txt''" ?a "\<lambda>c. Inr 0"] two
    by (simp add: meta_fs_def)
  have n: "parse_meta (meta_fs ''meta.txt'' no_value_meta) ''meta.txt'' = Inl IndexError"
    using parse_meta_failures [of "meta_fs ''meta.txt'' no_value_meta" "''meta.txt''" ?a "\<lambda>c. Inr 0"] nov
    by (simp add: meta_fs_def)
  have r: "main (meta_fs ''meta.txt'' two_line_meta) (\<lambda>c. Inr 0) ?a = ([Open ''meta.txt''], Inl IndexError)"
    using parse_meta_failures [of "meta_fs ''meta.txt'' two_line_meta" "''meta.txt''" ?a "\<lambda>c. Inr 0"] t
    by (simp add: endswith_def)
  from m u t n r show ?thesis by blast
qed

section \<open>What the parser reads\<close>

text \<open>
  Claim C10. The result of \<open>parse_meta\<close> depends only on the first three lines of the
  file: two readable files with the same first three lines give the same result. In
  particular, when a text that ends its last line has at least three lines, anything
  appended after it, well-formed or not, changes neither a success nor a failure.
\<close>

theorem parse_meta_first_three_lines:
  "(fs path = Contents content \<and> fs' path' = Contents content' \<and>
      take 3 (readlines (translate_newlines content')) =
      take 3 (readlines (translate_newlines content)) \<longrightarrow>
      parse_meta fs' path' = parse_meta fs path) \<and>
   (fs path = Contents (body @ [CHR 0x0A]) \<and> fs' path' = Contents (body @ CHR 0x0A # extra) \<and>
      3 \<le> length (readlines (translate_newlines (body @ [CHR 0x0A]))) \<longrightarrow>
      parse_meta fs' path' = parse_meta fs path)"
proof -
  have dep: "parse_meta g q = parse_meta f p"
    if c: "f p = Contents c" and d: "g q = Contents d"
      and eq: "take 3 (readlines (translate_newlines d)) = take 3 (readlines (translate_newlines c))"
    for f g :: "string \<Rightarrow> file_entry" and p q c d
  proof -
    have "take 3 (stripped_lines d) = map strip (take 3 (readlines (translate_newlines d)))"
      unfolding stripped_lines_def by (rule take_map)
    also have "\<dots> = map strip (take 3 (readlines (translate_newlines c)))"
      by (simp only: eq)
    also have "\<dots> = take 3 (stripped_lines c)"
      unfolding stripped_lines_def by (rule take_map [symmetric])
    finally have t: "take 3 (stripped_lines d) = take 3 (stripped_lines c)" .
    have "parse_lines (stripped_lines d) = parse_lines (take 3 (stripped_lines d))"
      by (rule parse_lines_take3 [symmetric])
    also have "\<dots> = parse_lines (take 3 (stripped_lines c))"
      by (simp only: t)
    also have "\<dots> = parse_lines (stripped_lines c)"
      by (rule parse_lines_take3)
    finally have "parse_lines (stripped_lines d) = parse_lines (stripped_lines c)" .
    then show ?thesis
      by (simp only: parse_meta_def c d file_entry.case)
  qed
  have ext: "take 3 (readlines (translate_newlines (body @ CHR 0x0A # extra))) =
      take 3 (readlines (translate_newlines (body @ [CHR 0x0A])))"
    if "3 \<le> length (readlines (translate_newlines (body @ [CHR 0x0A])))"
    using that by (simp add: lines_extra [of body extra])
  show ?thesis
  proof (intro conjI impI)
    assume "fs path = Contents content \<and> fs' path' = Contents content' \<and>
      take 3 (readlines (translate_newlines content')) =
      take 3 (readlines (translate_newlines content))"
    then show "parse_meta fs' path' = parse_meta fs path"
      using dep [of fs path content fs' path' content'] by blast
  next
    assume h: "fs path = Contents (body @ [CHR 0x0A]) \<and>
      fs' path' = Contents (body @ CHR 0x0A # extra) \<and>
      3 \<le> length (readlines (translate_newlines (body @ [CHR 0x0A])))"
    then have "take 3 (readlines (translate_newlines (body @ CHR 0x0A # extra))) =
      take 3 (readlines (translate_newlines (body @ [CHR 0x0A])))"
      using ext by blast
    with h show "parse_meta fs' path' = parse_meta fs path"
      using dep [of fs path "body @ [CHR 0x0A]" fs' path' "body @ CHR 0x0A # extra"] by blast
  qed
qed

theorem parse_meta_first_three_lines_witness:
  "parse_meta (meta_fs ''meta.txt''
       ((''width 640'' @ [CHR 0x0A] @ ''height 480'' @ [CHR 0x0A] @ ''pixel_format NV21'') @
        CHR 0x0A # ''notes'' @ [CHR 0x0A] @ ''no-value-here'')) ''meta.txt'' =
   Inr (''640'', ''480'', ''NV21'')"
  using parse_meta_first_three_lines [of "meta_fs ''meta.txt'' example_meta" "''meta.txt''"
      example_meta
      "meta_fs ''meta.txt''
       ((''width 640'' @ [CHR 0x0A] @ ''height 480'' @ [CHR 0x0A] @ ''pixel_format NV21'') @
        CHR 0x0A # ''notes'' @ [CHR 0x0A] @ ''no-value-here'')"
      "''meta.txt''"
      "(''width 640'' @ [CHR 0x0A] @ ''height 480'' @ [CHR 0x0A] @ ''pixel_format NV21'') @
        CHR 0x0A # ''notes'' @ [CHR 0x0A] @ ''no-value-here''"
      "''width 640'' @ [CHR 0x0A] @ ''height 480'' @ [CHR 0x0A] @ ''pixel_format NV21''"
      "''notes'' @ [CHR 0x0A] @ ''no-value-here''"]
    parse_example
  by (simp add: meta_fs_def example_meta_def)

end
